theory Spec2Isabelle
  imports Complex_Main
begin

section \<open>Market Mind: the Streamlit sentiment page of app.py\<close>

text \<open>
  The program is one script, \<^verbatim>\<open>app.py\<close>. It reads an access token from the process
  environment, declares a cached loader for the FinBERT pipeline and renders one page:
  a text area, a button and, after a click, a warning, a result or an error message.

  The tokenizer, the model and the pipeline come from the \<^verbatim>\<open>transformers\<close> library and
  the page elements from \<^verbatim>\<open>streamlit\<close>. Neither is part of the program, so the model
  takes the library calls that can fail or answer differently from one call to the next
  as a parameter (\<open>provider\<close>) that reads and changes an outside world \<open>'w\<close>, and
  records every library call and every rendered element in a trace of events.
\<close>

subsection \<open>Python values\<close>

text \<open>
  A Python \<^verbatim>\<open>str\<close> is a sequence of Unicode code points. \<open>str\<close> turns an ASCII
  literal of the source into that form.
\<close>

type_synonym pystr = "nat list"

definition str :: "string \<Rightarrow> pystr" where
  "str cs = map of_char cs"

text \<open>
  \<^verbatim>\<open>str.strip()\<close> without argument removes leading and trailing whitespace, which for
  \<^verbatim>\<open>str\<close> is the set of code points for which \<^verbatim>\<open>str.isspace\<close> holds in CPython:
  U+0009..U+000D, U+001C..U+0020, U+0085, U+00A0, U+1680, U+2000..U+200A, U+2028,
  U+2029, U+202F, U+205F and U+3000.
\<close>

definition py_isspace :: "nat \<Rightarrow> bool" where
  "py_isspace c \<longleftrightarrow>
     (9 \<le> c \<and> c \<le> 13) \<or> (28 \<le> c \<and> c \<le> 32) \<or> c = 133 \<or> c = 160 \<or> c = 5760 \<or>
     (8192 \<le> c \<and> c \<le> 8202) \<or> c = 8232 \<or> c = 8233 \<or> c = 8239 \<or> c = 8287 \<or>
     c = 12288"

definition strip :: "pystr \<Rightarrow> pystr" where
  "strip s = rev (dropWhile py_isspace (rev (dropWhile py_isspace s)))"

text \<open>
  A raised exception carries the text that \<^verbatim>\<open>str(e)\<close> gives. \<open>Exception\<close> stands for
  an instance of \<^verbatim>\<open>Exception\<close> or of a subclass, which \<^verbatim>\<open>except Exception\<close> catches;
  \<open>BaseExceptionOnly\<close> for the few classes outside it (\<^verbatim>\<open>KeyboardInterrupt\<close>,
  \<^verbatim>\<open>SystemExit\<close>, \<^verbatim>\<open>GeneratorExit\<close>), which it lets through.
\<close>

datatype exn = Exception pystr | BaseExceptionOnly pystr

fun str_of_exn :: "exn \<Rightarrow> pystr" where
  "str_of_exn (Exception d) = d"
| "str_of_exn (BaseExceptionOnly d) = d"

text \<open>
  One entry of the list a text classification pipeline returns: the dictionary with the
  keys \<^verbatim>\<open>'label'\<close> and \<^verbatim>\<open>'score'\<close>. The score is a Python float; the model keeps its
  value as a real number (not-a-number is not represented).
\<close>

record classification =
  label :: pystr
  score :: real

text \<open>Library objects are opaque to the program: only their identity is kept.\<close>

datatype tokenizer = Tokenizer nat

datatype model = Model nat

datatype handle = Handle nat

subsection \<open>Process state, library interface, trace\<close>

text \<open>
  The state of the running process: \<^verbatim>\<open>os.environ\<close>, the module variable
  \<^verbatim>\<open>hf_token\<close> (line 9), the entry that \<^verbatim>\<open>st.cache_resource\<close> keeps for
  \<^verbatim>\<open>load_sentiment_pipeline\<close> (line 64) and the world outside the process.
\<close>

record 'w process =
  environ :: "pystr \<rightharpoonup> pystr"
  hf_token :: "pystr option"
  cache :: "handle option"
  world :: 'w

text \<open>
  The calls into \<^verbatim>\<open>transformers\<close>: each reads the outside world (network, files,
  memory), may change it, and returns a value or raises.
\<close>

record 'w provider =
  AutoTokenizer_from_pretrained ::
    "pystr \<Rightarrow> pystr option \<Rightarrow> 'w \<Rightarrow> (exn + tokenizer) \<times> 'w"
  AutoModelForSequenceClassification_from_pretrained ::
    "pystr \<Rightarrow> pystr option \<Rightarrow> 'w \<Rightarrow> (exn + model) \<times> 'w"
  pipeline :: "pystr \<Rightarrow> model \<Rightarrow> tokenizer \<Rightarrow> 'w \<Rightarrow> (exn + handle) \<times> 'w"
  pipeline_call :: "handle \<Rightarrow> pystr \<Rightarrow> 'w \<Rightarrow> (exn + classification list) \<times> 'w"

text \<open>
  The trace: one event for each library call, with its arguments and, for the calls of
  the provider, its outcome. \<open>St_style\<close> is the \<^verbatim>\<open>st.markdown\<close> of the style sheet
  (lines 19-62) and \<open>St_info\<close> the \<^verbatim>\<open>st.info\<close> of the sidebar (lines 127-131), whose long
  constant texts are left out. \<open>St_card l s\<close> is the \<^verbatim>\<open>st.markdown\<close> of lines 107-116:
  the result card, whose HTML is built from \<^verbatim>\<open>label.lower()\<close>, \<^verbatim>\<open>label.upper()\<close> and
  the score printed as a percentage; the event keeps the label and the score it is built
  from.
\<close>

datatype event =
    Load_dotenv
  | Os_getenv pystr "pystr option"
  | From_pretrained_tokenizer pystr "pystr option" "exn + tokenizer"
  | From_pretrained_model pystr "pystr option" "exn + model"
  | Pipeline_ctor pystr model tokenizer "exn + handle"
  | Pipeline_call handle pystr "exn + classification list"
  | St_set_page_config
  | St_style
  | St_title pystr
  | St_subheader pystr
  | St_write pystr
  | St_text_area pystr
  | St_button pystr
  | St_warning pystr
  | St_spinner pystr
  | St_markdown pystr
  | St_card pystr real
  | St_progress real
  | St_error pystr
  | St_info
  | St_caption pystr

text \<open>
  A statement takes the process state and gives its outcome (\<open>Inl\<close> a raised exception,
  \<open>Inr\<close> a value), the new state and the events it produced, in order.
\<close>

type_synonym ('a, 'w) py = "'w process \<Rightarrow> (exn + 'a) \<times> 'w process \<times> event list"

definition ret :: "'a \<Rightarrow> ('a, 'w) py" where
  "ret a s = (Inr a, s, [])"

definition emit :: "event \<Rightarrow> (unit, 'w) py" where
  "emit e s = (Inr (), s, [e])"

text \<open>Sequencing: a raised exception skips the rest.\<close>

definition then_do :: "('a, 'w) py \<Rightarrow> ('a \<Rightarrow> ('b, 'w) py) \<Rightarrow> ('b, 'w) py" where
  "then_do m k s =
     (case m s of
        (Inl e, s1, evs1) \<Rightarrow> (Inl e, s1, evs1)
      | (Inr a, s1, evs1) \<Rightarrow> (case k a s1 of (r, s2, evs2) \<Rightarrow> (r, s2, evs1 @ evs2)))"

text \<open>A call of the provider: it runs on the world of the state and is recorded.\<close>

definition extcall ::
  "('w \<Rightarrow> (exn + 'a) \<times> 'w) \<Rightarrow> (exn + 'a \<Rightarrow> event) \<Rightarrow> ('a, 'w) py" where
  "extcall f ev s = (case f (world s) of (r, w') \<Rightarrow> (r, s\<lparr>world := w'\<rparr>, [ev r]))"

text \<open>\<^verbatim>\<open>try: body  except Exception as e: handler\<close>\<close>

definition try_except_Exception ::
  "('a, 'w) py \<Rightarrow> (exn \<Rightarrow> ('a, 'w) py) \<Rightarrow> ('a, 'w) py" where
  "try_except_Exception body handler s =
     (case body s of
        (Inl (Exception d), s1, evs1) \<Rightarrow>
          (case handler (Exception d) s1 of (r, s2, evs2) \<Rightarrow> (r, s2, evs1 @ evs2))
      | (Inl (BaseExceptionOnly d), s1, evs1) \<Rightarrow> (Inl (BaseExceptionOnly d), s1, evs1)
      | (Inr a, s1, evs1) \<Rightarrow> (Inr a, s1, evs1))"

subsection \<open>The loader (lines 64-70)\<close>

text \<open>
  The body of \<^verbatim>\<open>load_sentiment_pipeline\<close>: the tokenizer and the model are fetched under
  the fixed name with the module's \<^verbatim>\<open>hf_token\<close>, then the pipeline is built from them.
\<close>

definition load_sentiment_pipeline_undecorated :: "'w provider \<Rightarrow> (handle, 'w) py" where
  "load_sentiment_pipeline_undecorated P =
     (let model_name = str ''ProsusAI/finbert'' in
      then_do
        (\<lambda>s. extcall (AutoTokenizer_from_pretrained P model_name (hf_token s))
                (From_pretrained_tokenizer model_name (hf_token s)) s)
        (\<lambda>tokenizer.
      then_do
        (\<lambda>s. extcall (AutoModelForSequenceClassification_from_pretrained P model_name (hf_token s))
                (From_pretrained_model model_name (hf_token s)) s)
        (\<lambda>model.
      extcall (pipeline P (str ''sentiment-analysis'') model tokenizer)
        (Pipeline_ctor (str ''sentiment-analysis'') model tokenizer))))"

text \<open>
  The decorator \<^verbatim>\<open>@st.cache_resource\<close> on a function without arguments: a stored
  value is returned without running the function; otherwise the function runs and its
  return value is stored. An exception leaves the function through the decorator and
  nothing is stored.
\<close>

definition cache_resource :: "(handle, 'w) py \<Rightarrow> (handle, 'w) py" where
  "cache_resource f s =
     (case cache s of
        Some h \<Rightarrow> (Inr h, s, [])
      | None \<Rightarrow>
          (case f s of
             (Inl e, s1, evs) \<Rightarrow> (Inl e, s1, evs)
           | (Inr h, s1, evs) \<Rightarrow> (Inr h, s1\<lparr>cache := Some h\<rparr>, evs)))"

definition load_sentiment_pipeline :: "'w provider \<Rightarrow> (handle, 'w) py" where
  "load_sentiment_pipeline P = cache_resource (load_sentiment_pipeline_undecorated P)"

subsection \<open>The page (lines 72-133)\<close>

text \<open>\<^verbatim>\<open>xs[0]\<close>: an empty list raises \<^verbatim>\<open>IndexError\<close>.\<close>

definition index0 :: "'a list \<Rightarrow> ('a, 'w) py" where
  "index0 xs s =
     (case xs of
        [] \<Rightarrow> (Inl (Exception (str ''list index out of range'')), s, [])
      | x # _ \<Rightarrow> (Inr x, s, []))"

text \<open>
  \<^verbatim>\<open>st.progress(value)\<close> with a float: Streamlit documents the range
  \<^verbatim>\<open>0.0 <= value <= 1.0\<close> and raises \<^verbatim>\<open>StreamlitAPIException\<close>, a subclass of
  \<^verbatim>\<open>Exception\<close>, outside it. Its message ends with the value printed by \<^verbatim>\<open>%f\<close>, which
  the model leaves out.
\<close>

definition st_progress :: "real \<Rightarrow> (unit, 'w) py" where
  "st_progress v s =
     (if 0 \<le> v \<and> v \<le> 1 then (Inr (), s, [St_progress v])
      else (Inl (Exception (str ''Progress Value has invalid value [0.0, 1.0]'')), s, []))"

text \<open>Lines 73-86: title, introduction and the two widgets.\<close>

definition page_head :: "(unit, 'w) py" where
  "page_head =
     then_do (emit (St_title (str ''Market Mind''))) (\<lambda>_.
     then_do (emit (St_subheader (str ''Next-Gen Financial Sentiment Analysis''))) (\<lambda>_.
     then_do (emit (St_write (str ''Extract powerful insights from financial news, reports, and market chatter using the state-of-the-art **FinBERT** model.''))) (\<lambda>_.
     then_do (emit (St_text_area (str ''Enter financial text to analyze:''))) (\<lambda>_.
     emit (St_button (str ''Analyze Market Sentiment''))))))"

text \<open>Lines 94-119: the body of the \<^verbatim>\<open>try\<close>.\<close>

definition try_body :: "'w provider \<Rightarrow> pystr \<Rightarrow> (unit, 'w) py" where
  "try_body P user_input =
     then_do (load_sentiment_pipeline P) (\<lambda>sentiment_pipeline.
     then_do (extcall (pipeline_call P sentiment_pipeline user_input)
                (Pipeline_call sentiment_pipeline user_input)) (\<lambda>results.
     then_do (index0 results) (\<lambda>result.
     then_do (emit (St_markdown (str ''### Analysis Result''))) (\<lambda>_.
     then_do (emit (St_card (label result) (score result))) (\<lambda>_.
     st_progress (score result))))))"

text \<open>Lines 125-133: the sidebar.\<close>

definition sidebar :: "(unit, 'w) py" where
  "sidebar =
     then_do (emit (St_title (str ''About Market Mind''))) (\<lambda>_.
     then_do (emit St_info) (\<lambda>_.
     then_do (emit (St_write (str ''---''))) (\<lambda>_.
     emit (St_caption (str ''Built with Streamlit & Hugging Face'')))))"

text \<open>
  \<^verbatim>\<open>main\<close>. The values the two widgets return, the text of the text area and whether
  the button was clicked, are its inputs.
\<close>

definition main :: "'w provider \<Rightarrow> pystr \<Rightarrow> bool \<Rightarrow> (unit, 'w) py" where
  "main P user_input analyze_button =
     then_do page_head (\<lambda>_.
     then_do
       (if analyze_button then
          (if strip user_input = [] then
             emit (St_warning (str ''Please enter some text to analyze.''))
           else
             then_do (emit (St_spinner (str ''Analyzing market sentiment...''))) (\<lambda>_.
             try_except_Exception (try_body P user_input)
               (\<lambda>e. emit (St_error (str ''An error occurred during analysis: '' @ str_of_exn e)))))
        else ret ())
       (\<lambda>_. sidebar))"

subsection \<open>The script and a process lifetime\<close>

text \<open>
  \<^verbatim>\<open>load_dotenv()\<close> adds the variables of the \<^verbatim>\<open>.env\<close> file to \<^verbatim>\<open>os.environ\<close>; a
  variable that is already set keeps its value. \<^verbatim>\<open>os.getenv\<close> gives \<^verbatim>\<open>None\<close> for a
  variable that is not set.
\<close>

definition load_dotenv :: "(pystr \<rightharpoonup> pystr) \<Rightarrow> (unit, 'w) py" where
  "load_dotenv file s = (Inr (), s\<lparr>environ := file ++ environ s\<rparr>, [Load_dotenv])"

definition os_getenv :: "pystr \<Rightarrow> (pystr option, 'w) py" where
  "os_getenv k s = (Inr (environ s k), s, [Os_getenv k (environ s k)])"

definition assign_hf_token :: "pystr option \<Rightarrow> (unit, 'w) py" where
  "assign_hf_token v s = (Inr (), s\<lparr>hf_token := v\<rparr>, [])"

text \<open>
  What one run of the script meets from outside: the content of the \<^verbatim>\<open>.env\<close> file, the
  text in the text area and whether the button was clicked.
\<close>

record interaction =
  dotenv :: "pystr \<rightharpoonup> pystr"
  typed_text :: pystr
  clicked :: bool

text \<open>
  One run of \<^verbatim>\<open>app.py\<close> from top to bottom (lines 8-9, 12, 19, 135-136). Streamlit runs
  the script again for every interaction of the user with the page; the environment, the
  resource cache and the outside world stay, the module variable is assigned anew.
\<close>

definition script :: "'w provider \<Rightarrow> interaction \<Rightarrow> (unit, 'w) py" where
  "script P i =
     then_do (load_dotenv (dotenv i)) (\<lambda>_.
     then_do (os_getenv (str ''HUGGINGFACE_TOKEN'')) (\<lambda>v.
     then_do (assign_hf_token v) (\<lambda>_.
     then_do (emit St_set_page_config) (\<lambda>_.
     then_do (emit St_style) (\<lambda>_.
     main P (typed_text i) (clicked i))))))"

text \<open>
  What the first lines of the script leave behind: the token they resolve, the state in
  which \<^verbatim>\<open>main\<close> starts, and their part of the trace.
\<close>

definition resolved_token :: "interaction \<Rightarrow> 'w process \<Rightarrow> pystr option" where
  "resolved_token i s = (dotenv i ++ environ s) (str ''HUGGINGFACE_TOKEN'')"

definition after_import :: "interaction \<Rightarrow> 'w process \<Rightarrow> 'w process" where
  "after_import i s = s\<lparr>environ := dotenv i ++ environ s, hf_token := resolved_token i s\<rparr>"

definition import_events :: "pystr option \<Rightarrow> event list" where
  "import_events v =
     [Load_dotenv, Os_getenv (str ''HUGGINGFACE_TOKEN'') v, St_set_page_config, St_style]"

text \<open>
  A process lifetime: the runs of the script for a sequence of interactions, one after
  the other. It gives the final state and the whole trace. A run that an exception outside
  \<^verbatim>\<open>Exception\<close> ends early is followed by the next run like any other.
\<close>

fun session :: "'w provider \<Rightarrow> interaction list \<Rightarrow> 'w process \<Rightarrow> 'w process \<times> event list" where
  "session P [] s = (s, [])"
| "session P (i # rest) s =
     (case script P i s of
        (r, s1, evs1) \<Rightarrow> (case session P rest s1 of (s2, evs2) \<Rightarrow> (s2, evs1 @ evs2)))"

subsection \<open>Reading a trace\<close>

text \<open>What a trace shows on the page, element by element, in the order of rendering.\<close>

fun warnings :: "event list \<Rightarrow> pystr list" where
  "warnings [] = []"
| "warnings (St_warning m # evs) = m # warnings evs"
| "warnings (_ # evs) = warnings evs"

fun cards :: "event list \<Rightarrow> (pystr \<times> real) list" where
  "cards [] = []"
| "cards (St_card l v # evs) = (l, v) # cards evs"
| "cards (_ # evs) = cards evs"

fun bars :: "event list \<Rightarrow> real list" where
  "bars [] = []"
| "bars (St_progress v # evs) = v # bars evs"
| "bars (_ # evs) = bars evs"

fun errors :: "event list \<Rightarrow> pystr list" where
  "errors [] = []"
| "errors (St_error m # evs) = m # errors evs"
| "errors (_ # evs) = errors evs"

text \<open>
  What a trace shows of the provider: the runs of the loader's body (each starts with
  the call for the tokenizer), the handles that were built, and the handles that were
  called for an inference.
\<close>

fun loader_runs :: "event list \<Rightarrow> nat" where
  "loader_runs [] = 0"
| "loader_runs (From_pretrained_tokenizer n t r # evs) = Suc (loader_runs evs)"
| "loader_runs (_ # evs) = loader_runs evs"

fun built :: "event list \<Rightarrow> handle list" where
  "built [] = []"
| "built (Pipeline_ctor k m t (Inr h) # evs) = h # built evs"
| "built (_ # evs) = built evs"

fun called :: "event list \<Rightarrow> handle list" where
  "called [] = []"
| "called (Pipeline_call h x r # evs) = h # called evs"
| "called (_ # evs) = called evs"

fun is_provider_event :: "event \<Rightarrow> bool" where
  "is_provider_event (From_pretrained_tokenizer n t r) = True"
| "is_provider_event (From_pretrained_model n t r) = True"
| "is_provider_event (Pipeline_ctor k m t r) = True"
| "is_provider_event (Pipeline_call h x r) = True"
| "is_provider_event _ = False"

definition provider_events :: "event list \<Rightarrow> event list" where
  "provider_events evs = filter is_provider_event evs"

fun getenvs :: "event list \<Rightarrow> (pystr \<times> pystr option) list" where
  "getenvs [] = []"
| "getenvs (Os_getenv k v # evs) = (k, v) # getenvs evs"
| "getenvs (_ # evs) = getenvs evs"

text \<open>The constant parts of the page, as traces.\<close>

definition head_events :: "event list" where
  "head_events =
     [St_title (str ''Market Mind''),
      St_subheader (str ''Next-Gen Financial Sentiment Analysis''),
      St_write (str ''Extract powerful insights from financial news, reports, and market chatter using the state-of-the-art **FinBERT** model.''),
      St_text_area (str ''Enter financial text to analyze:''),
      St_button (str ''Analyze Market Sentiment'')]"

definition sidebar_events :: "event list" where
  "sidebar_events =
     [St_title (str ''About Market Mind''), St_info, St_write (str ''---''),
      St_caption (str ''Built with Streamlit & Hugging Face'')]"

definition spinner_event :: event where
  "spinner_event = St_spinner (str ''Analyzing market sentiment...'')"

definition error_text :: "pystr \<Rightarrow> pystr" where
  "error_text d = str ''An error occurred during analysis: '' @ d"

subsection \<open>Assumptions on the provider\<close>

text \<open>
  Modelled from the spec: the Model Provider, whose code is not part of the program.
  Its contract is \<^verbatim>\<open>classify(text) -> {label, score}\<close> with a label among
  positive, negative and neutral and a score in the closed interval from 0 to 1; the
  first entry of the list is the top-ranked one.
\<close>

definition finbert_labels :: "pystr set" where
  "finbert_labels = {str ''positive'', str ''negative'', str ''neutral''}"

definition analysis_result :: "classification \<Rightarrow> bool" where
  "analysis_result r \<longleftrightarrow> label r \<in> finbert_labels \<and> 0 \<le> score r \<and> score r \<le> 1"

definition model_provider_contract :: "'w provider \<Rightarrow> bool" where
  "model_provider_contract P \<longleftrightarrow>
     (\<forall>h x w rs w'. pipeline_call P h x w = (Inr rs, w') \<longrightarrow>
        (\<exists>r rest. rs = r # rest \<and> analysis_result r))"

text \<open>
  Modelled from the spec: the determinism of the Model Provider, whose code is not part
  of the program ("model is deterministic given fixed weights"). What a handle answers
  for a text does not depend on the outside world.
\<close>

definition deterministic_inference :: "'w provider \<Rightarrow> bool" where
  "deterministic_inference P \<longleftrightarrow>
     (\<forall>h x w w'. fst (pipeline_call P h x w) = fst (pipeline_call P h x w'))"

subsection \<open>Example providers and inputs\<close>

text \<open>A process that has just started: nothing in the environment, nothing cached.\<close>

definition fresh_process :: "nat process" where
  "fresh_process = \<lparr>environ = Map.empty, hf_token = None, cache = None, world = 0\<rparr>"

text \<open>A provider that always succeeds and answers every text the same way.\<close>

definition steady_provider :: "nat provider" where
  "steady_provider =
     \<lparr>AutoTokenizer_from_pretrained = (\<lambda>n t w. (Inr (Tokenizer 1), w)),
      AutoModelForSequenceClassification_from_pretrained = (\<lambda>n t w. (Inr (Model 2), w)),
      pipeline = (\<lambda>k m t w. (Inr (Handle 3), w)),
      pipeline_call = (\<lambda>h x w. (Inr [\<lparr>label = str ''positive'', score = 93 / 100\<rparr>], w))\<rparr>"

text \<open>
  A provider whose first download fails (the world counts the attempts) and whose later
  ones succeed.
\<close>

definition flaky_provider :: "nat provider" where
  "flaky_provider =
     \<lparr>AutoTokenizer_from_pretrained =
        (\<lambda>n t w. if w = 0 then (Inl (Exception (str ''Connection error'')), Suc w)
                  else (Inr (Tokenizer 1), Suc w)),
      AutoModelForSequenceClassification_from_pretrained = (\<lambda>n t w. (Inr (Model 2), w)),
      pipeline = (\<lambda>k m t w. (Inr (Handle 3), w)),
      pipeline_call = (\<lambda>h x w. (Inr [\<lparr>label = str ''positive'', score = 93 / 100\<rparr>], w))\<rparr>"

text \<open>A provider whose inference runs out of memory.\<close>

definition exhausted_provider :: "nat provider" where
  "exhausted_provider =
     \<lparr>AutoTokenizer_from_pretrained = (\<lambda>n t w. (Inr (Tokenizer 1), w)),
      AutoModelForSequenceClassification_from_pretrained = (\<lambda>n t w. (Inr (Model 2), w)),
      pipeline = (\<lambda>k m t w. (Inr (Handle 3), w)),
      pipeline_call = (\<lambda>h x w. (Inl (Exception (str ''out of memory'')), w))\<rparr>"



text \<open>A click on the button with a sentence in the text area, and one with blanks only.\<close>

definition headline :: pystr where
  "headline = str ''Apple stock surges''"

definition submit_headline :: interaction where
  "submit_headline = \<lparr>dotenv = Map.empty, typed_text = headline, clicked = True\<rparr>"

definition submit_blanks :: interaction where
  "submit_blanks = \<lparr>dotenv = Map.empty, typed_text = str ''  '', clicked = True\<rparr>"

section \<open>Properties\<close>

subsection \<open>Reading traces\<close>

lemma warnings_append: "warnings (a @ b) = warnings a @ warnings b"
  by (induction a rule: warnings.induct) simp_all

lemma cards_append: "cards (a @ b) = cards a @ cards b"
  by (induction a rule: cards.induct) simp_all

lemma bars_append: "bars (a @ b) = bars a @ bars b"
  by (induction a rule: bars.induct) simp_all

lemma errors_append: "errors (a @ b) = errors a @ errors b"
  by (induction a rule: errors.induct) simp_all

lemma loader_runs_append: "loader_runs (a @ b) = loader_runs a + loader_runs b"
  by (induction a rule: loader_runs.induct) simp_all

lemma built_append: "built (a @ b) = built a @ built b"
  by (induction a rule: built.induct) simp_all

lemma called_append: "called (a @ b) = called a @ called b"
  by (induction a rule: called.induct) simp_all

lemma getenvs_append: "getenvs (a @ b) = getenvs a @ getenvs b"
  by (induction a rule: getenvs.induct) simp_all

lemma provider_events_append: "provider_events (a @ b) = provider_events a @ provider_events b"
  by (simp add: provider_events_def)

lemmas trace_append =
  warnings_append cards_append bars_append errors_append loader_runs_append built_append
  called_append getenvs_append provider_events_append

lemma head_events_shows:
  "warnings head_events = []" "cards head_events = []" "bars head_events = []"
  "errors head_events = []" "loader_runs head_events = 0" "built head_events = []"
  "called head_events = []" "getenvs head_events = []" "provider_events head_events = []"
  by (simp_all add: head_events_def provider_events_def)

lemma sidebar_events_shows:
  "warnings sidebar_events = []" "cards sidebar_events = []" "bars sidebar_events = []"
  "errors sidebar_events = []" "loader_runs sidebar_events = 0" "built sidebar_events = []"
  "called sidebar_events = []" "getenvs sidebar_events = []"
  "provider_events sidebar_events = []"
  by (simp_all add: sidebar_events_def provider_events_def)

lemma spinner_event_shows:
  "warnings (spinner_event # evs) = warnings evs" "cards (spinner_event # evs) = cards evs"
  "bars (spinner_event # evs) = bars evs" "errors (spinner_event # evs) = errors evs"
  "loader_runs (spinner_event # evs) = loader_runs evs"
  "built (spinner_event # evs) = built evs" "called (spinner_event # evs) = called evs"
  "getenvs (spinner_event # evs) = getenvs evs"
  "provider_events (spinner_event # evs) = provider_events evs"
  "\<not> is_provider_event spinner_event"
  by (simp_all add: spinner_event_def provider_events_def)

lemma page_head_run: "page_head s = (Inr (), s, head_events)"
  by (simp add: page_head_def head_events_def then_do_def emit_def)

lemma sidebar_run: "sidebar s = (Inr (), s, sidebar_events)"
  by (simp add: sidebar_def sidebar_events_def then_do_def emit_def)

lemma main_not_clicked: "main P user_input False s = (Inr (), s, head_events @ sidebar_events)"
  by (simp add: main_def then_do_def page_head_run sidebar_run ret_def)

lemma main_blank:
  "strip user_input = [] \<Longrightarrow>
   main P user_input True s =
     (Inr (), s,
      head_events @ St_warning (str ''Please enter some text to analyze.'') # sidebar_events)"
  by (simp add: main_def then_do_def page_head_run sidebar_run emit_def)

lemma main_valid_caught:
  "strip user_input \<noteq> [] \<Longrightarrow> try_body P user_input s = (Inl (Exception d), s1, evs1) \<Longrightarrow>
   main P user_input True s =
     (Inr (), s1, head_events @ spinner_event # evs1 @ St_error (error_text d) # sidebar_events)"
  by (simp add: main_def then_do_def page_head_run sidebar_run emit_def
      try_except_Exception_def spinner_event_def error_text_def)

lemma main_valid_uncaught:
  "strip user_input \<noteq> [] \<Longrightarrow> try_body P user_input s = (Inl (BaseExceptionOnly d), s1, evs1) \<Longrightarrow>
   main P user_input True s = (Inl (BaseExceptionOnly d), s1, head_events @ spinner_event # evs1)"
  by (simp add: main_def then_do_def page_head_run sidebar_run emit_def
      try_except_Exception_def spinner_event_def error_text_def)

lemma main_valid_done:
  "strip user_input \<noteq> [] \<Longrightarrow> try_body P user_input s = (Inr (), s1, evs1) \<Longrightarrow>
   main P user_input True s = (Inr (), s1, head_events @ spinner_event # evs1 @ sidebar_events)"
  by (simp add: main_def then_do_def page_head_run sidebar_run emit_def
      try_except_Exception_def spinner_event_def error_text_def)

lemma try_body_load_fails:
  "load_sentiment_pipeline P s = (Inl e, s1, evs1) \<Longrightarrow> try_body P user_input s = (Inl e, s1, evs1)"
  by (simp add: try_body_def then_do_def)

lemma try_body_call_fails:
  "load_sentiment_pipeline P s = (Inr h, s1, evs1) \<Longrightarrow>
   pipeline_call P h user_input (world s1) = (Inl e, w2) \<Longrightarrow>
   try_body P user_input s =
     (Inl e, s1\<lparr>world := w2\<rparr>, evs1 @ [Pipeline_call h user_input (Inl e)])"
  by (simp add: try_body_def then_do_def extcall_def)

lemma try_body_no_result:
  "load_sentiment_pipeline P s = (Inr h, s1, evs1) \<Longrightarrow>
   pipeline_call P h user_input (world s1) = (Inr [], w2) \<Longrightarrow>
   try_body P user_input s =
     (Inl (Exception (str ''list index out of range'')), s1\<lparr>world := w2\<rparr>,
      evs1 @ [Pipeline_call h user_input (Inr [])])"
  by (simp add: try_body_def then_do_def extcall_def index0_def)

lemma try_body_result:
  "load_sentiment_pipeline P s = (Inr h, s1, evs1) \<Longrightarrow>
   pipeline_call P h user_input (world s1) = (Inr (r # rs), w2) \<Longrightarrow>
   0 \<le> score r \<Longrightarrow> score r \<le> 1 \<Longrightarrow>
   try_body P user_input s =
     (Inr (), s1\<lparr>world := w2\<rparr>,
      evs1 @ [Pipeline_call h user_input (Inr (r # rs)), St_markdown (str ''### Analysis Result''),
              St_card (label r) (score r), St_progress (score r)])"
  by (simp add: try_body_def then_do_def extcall_def index0_def emit_def st_progress_def)

lemma try_body_bad_score:
  "load_sentiment_pipeline P s = (Inr h, s1, evs1) \<Longrightarrow>
   pipeline_call P h user_input (world s1) = (Inr (r # rs), w2) \<Longrightarrow>
   \<not> (0 \<le> score r \<and> score r \<le> 1) \<Longrightarrow>
   try_body P user_input s =
     (Inl (Exception (str ''Progress Value has invalid value [0.0, 1.0]'')), s1\<lparr>world := w2\<rparr>,
      evs1 @ [Pipeline_call h user_input (Inr (r # rs)), St_markdown (str ''### Analysis Result''),
              St_card (label r) (score r)])"
  by (simp add: try_body_def then_do_def extcall_def index0_def emit_def st_progress_def)

lemma provider_events_simps:
  "provider_events [] = []"
  "provider_events (e # evs) =
     (if is_provider_event e then e # provider_events evs else provider_events evs)"
  by (simp_all add: provider_events_def)

lemmas page_shows =
  trace_append head_events_shows sidebar_events_shows spinner_event_shows provider_events_simps

subsection \<open>The loader\<close>

lemma load_cached:
  "cache s = Some h \<Longrightarrow> load_sentiment_pipeline P s = (Inr h, s, [])"
  by (simp add: load_sentiment_pipeline_def cache_resource_def)

lemma undecorated_frame:
  "load_sentiment_pipeline_undecorated P s = (r, s1, evs) \<Longrightarrow>
   environ s1 = environ s \<and> hf_token s1 = hf_token s \<and> cache s1 = cache s"
  by (auto simp: load_sentiment_pipeline_undecorated_def then_do_def extcall_def Let_def
      split: prod.splits sum.splits)

lemma undecorated_shows:
  assumes "load_sentiment_pipeline_undecorated P s = (r, s1, evs)"
  shows "warnings evs = []" "cards evs = []" "bars evs = []" "errors evs = []"
    "called evs = []" "getenvs evs = []" "loader_runs evs = 1"
    "built evs = (case r of Inl e \<Rightarrow> [] | Inr h \<Rightarrow> [h])"
  using assms
  by (auto simp: load_sentiment_pipeline_undecorated_def then_do_def extcall_def Let_def
      split: prod.splits sum.splits)

lemma load_frame:
  "load_sentiment_pipeline P s = (r, s1, evs) \<Longrightarrow>
   environ s1 = environ s \<and> hf_token s1 = hf_token s"
  by (auto simp: load_sentiment_pipeline_def cache_resource_def
      split: option.splits prod.splits sum.splits dest: undecorated_frame)

lemma load_shows:
  assumes "load_sentiment_pipeline P s = (r, s1, evs)"
  shows "warnings evs = []" "cards evs = []" "bars evs = []" "errors evs = []"
    "called evs = []" "getenvs evs = []"
  using assms
  by (auto simp: load_sentiment_pipeline_def cache_resource_def
      split: option.splits prod.splits sum.splits dest: undecorated_shows)

lemma load_returns_cache:
  "load_sentiment_pipeline P s = (Inr h, s1, evs) \<Longrightarrow> cache s1 = Some h"
  by (auto simp: load_sentiment_pipeline_def cache_resource_def
      split: option.splits prod.splits sum.splits)

lemma load_raises_cache:
  "load_sentiment_pipeline P s = (Inl e, s1, evs) \<Longrightarrow> cache s = None \<and> cache s1 = None"
  by (auto simp: load_sentiment_pipeline_def cache_resource_def
      split: option.splits prod.splits sum.splits dest: undecorated_frame)

lemma load_fresh_built:
  "load_sentiment_pipeline P s = (r, s1, evs) \<Longrightarrow> cache s = None \<Longrightarrow>
   loader_runs evs = 1 \<and> built evs = (case r of Inl e \<Rightarrow> [] | Inr h \<Rightarrow> [h])"
  by (auto simp: load_sentiment_pipeline_def cache_resource_def
      split: option.splits prod.splits sum.splits dest: undecorated_shows)

lemma load_step:
  assumes "load_sentiment_pipeline P s = (r, s0, evs0)"
  shows "(\<exists>h. cache s = Some h \<and> r = Inr h \<and> s0 = s \<and> evs0 = []) \<or>
         (cache s = None \<and> loader_runs evs0 = 1 \<and> provider_events evs0 \<noteq> [] \<and>
          ((\<exists>h. r = Inr h \<and> cache s0 = Some h \<and> built evs0 = [h]) \<or>
           (\<exists>e. r = Inl e \<and> cache s0 = None \<and> built evs0 = [])))"
proof (cases "cache s")
  case (Some h)
  with assms show ?thesis by (simp add: load_cached)
next
  case None
  from assms have "provider_events evs0 \<noteq> []"
    using None
    by (auto simp: load_sentiment_pipeline_def cache_resource_def
        load_sentiment_pipeline_undecorated_def then_do_def extcall_def Let_def
        provider_events_simps split: prod.splits sum.splits)
  moreover from load_fresh_built [OF assms None]
  have "loader_runs evs0 = 1" "built evs0 = (case r of Inl e \<Rightarrow> [] | Inr h \<Rightarrow> [h])"
    by simp_all
  moreover have "(\<exists>h. r = Inr h \<and> cache s0 = Some h) \<or> (\<exists>e. r = Inl e \<and> cache s0 = None)"
    using assms load_returns_cache [of P s _ s0 evs0] load_raises_cache [of P s _ s0 evs0]
    by (cases r) auto
  ultimately show ?thesis using None by auto
qed

subsection \<open>The branches of the page\<close>

lemma try_body_cases [consumes 1, case_names load_fails call_fails no_entry shown bad_score]:
  assumes tb: "try_body P u s = (r, s1, evs)"
  obtains
    (load_fails) e where "load_sentiment_pipeline P s = (Inl e, s1, evs)" "r = Inl e"
  | (call_fails) h s0 evs0 e w2 where
      "load_sentiment_pipeline P s = (Inr h, s0, evs0)"
      "pipeline_call P h u (world s0) = (Inl e, w2)"
      "r = Inl e" "s1 = s0\<lparr>world := w2\<rparr>" "evs = evs0 @ [Pipeline_call h u (Inl e)]"
  | (no_entry) h s0 evs0 w2 where
      "load_sentiment_pipeline P s = (Inr h, s0, evs0)"
      "pipeline_call P h u (world s0) = (Inr [], w2)"
      "r = Inl (Exception (str ''list index out of range''))" "s1 = s0\<lparr>world := w2\<rparr>"
      "evs = evs0 @ [Pipeline_call h u (Inr [])]"
  | (shown) h s0 evs0 x xs w2 where
      "load_sentiment_pipeline P s = (Inr h, s0, evs0)"
      "pipeline_call P h u (world s0) = (Inr (x # xs), w2)"
      "0 \<le> score x" "score x \<le> 1" "r = Inr ()" "s1 = s0\<lparr>world := w2\<rparr>"
      "evs = evs0 @ [Pipeline_call h u (Inr (x # xs)), St_markdown (str ''### Analysis Result''),
                     St_card (label x) (score x), St_progress (score x)]"
  | (bad_score) h s0 evs0 x xs w2 where
      "load_sentiment_pipeline P s = (Inr h, s0, evs0)"
      "pipeline_call P h u (world s0) = (Inr (x # xs), w2)"
      "\<not> (0 \<le> score x \<and> score x \<le> 1)"
      "r = Inl (Exception (str ''Progress Value has invalid value [0.0, 1.0]''))"
      "s1 = s0\<lparr>world := w2\<rparr>"
      "evs = evs0 @ [Pipeline_call h u (Inr (x # xs)), St_markdown (str ''### Analysis Result''),
                     St_card (label x) (score x)]"
proof -
  obtain rl s0 evs0 where l: "load_sentiment_pipeline P s = (rl, s0, evs0)"
    by (metis prod_cases3)
  show thesis
  proof (cases rl)
    case (Inl e)
    with l tb show thesis
      using load_fails [of e] try_body_load_fails [of P s e s0 evs0 u] by simp
  next
    case (Inr h)
    obtain rc w2 where c: "pipeline_call P h u (world s0) = (rc, w2)"
      by (metis surj_pair)
    show thesis
    proof (cases rc)
      case (Inl e)
      with l c tb \<open>rl = Inr h\<close> show thesis
        using call_fails [of h s0 evs0 e w2] try_body_call_fails [of P s h s0 evs0 u e w2]
        by simp
    next
      case rs: (Inr rs)
      show thesis
      proof (cases rs)
        case Nil
        with l c tb rs \<open>rl = Inr h\<close> show thesis
          using no_entry [of h s0 evs0 w2] try_body_no_result [of P s h s0 evs0 u w2] by simp
      next
        case (Cons x xs)
        show thesis
        proof (cases "0 \<le> score x \<and> score x \<le> 1")
          case True
          with l c tb rs Cons \<open>rl = Inr h\<close> show thesis
            using shown [of h s0 evs0 x xs w2] try_body_result [of P s h s0 evs0 u x xs w2]
            by simp
        next
          case False
          with l c tb rs Cons \<open>rl = Inr h\<close> show thesis
            using bad_score [of h s0 evs0 x xs w2]
              try_body_bad_score [of P s h s0 evs0 u x xs w2]
            by simp
        qed
      qed
    qed
  qed
qed

lemma main_cases [consumes 1, case_names idle blank caught uncaught finished]:
  assumes m: "main P u b s = (r, s1, evs)"
  obtains
    (idle) "\<not> b" "r = Inr ()" "s1 = s" "evs = head_events @ sidebar_events"
  | (blank) "b" "strip u = []" "r = Inr ()" "s1 = s"
      "evs = head_events @ St_warning (str ''Please enter some text to analyze.'') # sidebar_events"
  | (caught) d evs0 where "b" "strip u \<noteq> []" "try_body P u s = (Inl (Exception d), s1, evs0)"
      "r = Inr ()"
      "evs = head_events @ spinner_event # evs0 @ St_error (error_text d) # sidebar_events"
  | (uncaught) d evs0 where "b" "strip u \<noteq> []"
      "try_body P u s = (Inl (BaseExceptionOnly d), s1, evs0)"
      "r = Inl (BaseExceptionOnly d)" "evs = head_events @ spinner_event # evs0"
  | (finished) evs0 where "b" "strip u \<noteq> []" "try_body P u s = (Inr (), s1, evs0)" "r = Inr ()"
      "evs = head_events @ spinner_event # evs0 @ sidebar_events"
proof (cases b)
  case False
  then have "main P u b s = (Inr (), s, head_events @ sidebar_events)"
    by (simp add: main_not_clicked)
  with m have "r = Inr ()" "s1 = s" "evs = head_events @ sidebar_events"
    by simp_all
  with False show thesis by (rule idle)
next
  case True
  then have b: "b = True" by simp
  show thesis
  proof (cases "strip u = []")
    case empty: True
    from m have "main P u True s = (r, s1, evs)" unfolding b .
    then have "r = Inr ()" "s1 = s"
      "evs = head_events @ St_warning (str ''Please enter some text to analyze.'') # sidebar_events"
      unfolding main_blank [OF empty] by simp_all
    with True empty show thesis by (rule blank)
  next
    case False
    obtain rt s0 evs0 where t: "try_body P u s = (rt, s0, evs0)"
      by (metis prod_cases3)
    from m have m': "main P u True s = (r, s1, evs)" unfolding b .
    show thesis
    proof (cases rt)
      case (Inl e)
      show thesis
      proof (cases e)
        case (Exception d)
        have t': "try_body P u s = (Inl (Exception d), s0, evs0)"
          unfolding t Inl Exception ..
        from m' have "r = Inr ()" "s1 = s0"
          "evs = head_events @ spinner_event # evs0 @ St_error (error_text d) # sidebar_events"
          unfolding main_valid_caught [OF False t'] by simp_all
        with True False t' show thesis using caught [of d evs0] by blast
      next
        case (BaseExceptionOnly d)
        have t': "try_body P u s = (Inl (BaseExceptionOnly d), s0, evs0)"
          unfolding t Inl BaseExceptionOnly ..
        from m' have "r = Inl (BaseExceptionOnly d)" "s1 = s0"
          "evs = head_events @ spinner_event # evs0"
          unfolding main_valid_uncaught [OF False t'] by simp_all
        with True False t' show thesis using uncaught [of d evs0] by blast
      qed
    next
      case (Inr a)
      have t': "try_body P u s = (Inr (), s0, evs0)"
        unfolding t Inr by simp
      from m' have "r = Inr ()" "s1 = s0"
        "evs = head_events @ spinner_event # evs0 @ sidebar_events"
        unfolding main_valid_done [OF False t'] by simp_all
      with True False t' show thesis using finished [of evs0] by blast
    qed
  qed
qed

lemma try_body_summary:
  assumes "try_body P u s = (r, s1, evs)"
  shows "environ s1 = environ s \<and> hf_token s1 = hf_token s \<and> warnings evs = [] \<and>
         getenvs evs = [] \<and> provider_events evs \<noteq> [] \<and>
         ((\<exists>h. cache s = Some h \<and> cache s1 = Some h \<and> built evs = [] \<and>
               loader_runs evs = 0 \<and> called evs = [h]) \<or>
          (cache s = None \<and> loader_runs evs = 1 \<and>
           ((\<exists>h. cache s1 = Some h \<and> built evs = [h] \<and> called evs = [h]) \<or>
            (cache s1 = None \<and> built evs = [] \<and> called evs = []))))"
  using assms
proof (cases rule: try_body_cases)
  case (load_fails e)
  from load_step [OF load_fails(1)] load_frame [OF load_fails(1)] load_shows [OF load_fails(1)]
  show ?thesis by auto
next
  case (call_fails h s0 evs0 e w2)
  from load_step [OF call_fails(1)] load_frame [OF call_fails(1)] load_shows [OF call_fails(1)]
  show ?thesis unfolding call_fails(4,5) by (auto simp: page_shows)
next
  case (no_entry h s0 evs0 w2)
  from load_step [OF no_entry(1)] load_frame [OF no_entry(1)] load_shows [OF no_entry(1)]
  show ?thesis unfolding no_entry(4,5) by (auto simp: page_shows)
next
  case (shown h s0 evs0 x xs w2)
  from load_step [OF shown(1)] load_frame [OF shown(1)] load_shows [OF shown(1)]
  show ?thesis unfolding shown(6,7) by (auto simp: page_shows)
next
  case (bad_score h s0 evs0 x xs w2)
  from load_step [OF bad_score(1)] load_frame [OF bad_score(1)] load_shows [OF bad_score(1)]
  show ?thesis unfolding bad_score(5,6) by (auto simp: page_shows)
qed

lemma main_summary:
  assumes "main P u b s = (r, s1, evs)"
  shows "environ s1 = environ s \<and> hf_token s1 = hf_token s \<and> getenvs evs = [] \<and>
         ((s1 = s \<and> provider_events evs = [] \<and> built evs = [] \<and> loader_runs evs = 0 \<and>
           called evs = [] \<and> (\<not> b \<or> strip u = [])) \<or>
          (b \<and> strip u \<noteq> [] \<and> provider_events evs \<noteq> [] \<and>
           ((\<exists>h. cache s = Some h \<and> cache s1 = Some h \<and> built evs = [] \<and>
                 loader_runs evs = 0 \<and> called evs = [h]) \<or>
            (cache s = None \<and> loader_runs evs = 1 \<and>
             ((\<exists>h. cache s1 = Some h \<and> built evs = [h] \<and> called evs = [h]) \<or>
              (cache s1 = None \<and> built evs = [] \<and> called evs = []))))))"
  using assms
proof (cases rule: main_cases)
  case idle
  then show ?thesis by (simp add: page_shows)
next
  case blank
  then show ?thesis by (simp add: page_shows)
next
  case (caught d evs0)
  from try_body_summary [OF caught(3)] caught(1,2) show ?thesis
    unfolding caught(5) by (simp add: page_shows)
next
  case (uncaught d evs0)
  from try_body_summary [OF uncaught(3)] uncaught(1,2) show ?thesis
    unfolding uncaught(5) by (simp add: page_shows)
next
  case (finished evs0)
  from try_body_summary [OF finished(3)] finished(1,2) show ?thesis
    unfolding finished(5) by (simp add: page_shows)
qed

subsection \<open>The example providers\<close>

lemma blanks_strip: "strip (str ''  '') = []"
  by (simp add: strip_def str_def py_isspace_def)

lemma headline_valid: "strip headline \<noteq> []"
  by (simp add: headline_def strip_def str_def py_isspace_def)

lemma steady_load:
  "load_sentiment_pipeline steady_provider fresh_process =
     (Inr (Handle 3), fresh_process\<lparr>cache := Some (Handle 3)\<rparr>,
      [From_pretrained_tokenizer (str ''ProsusAI/finbert'') None (Inr (Tokenizer 1)),
       From_pretrained_model (str ''ProsusAI/finbert'') None (Inr (Model 2)),
       Pipeline_ctor (str ''sentiment-analysis'') (Model 2) (Tokenizer 1) (Inr (Handle 3))])"
  by (simp add: load_sentiment_pipeline_def cache_resource_def
      load_sentiment_pipeline_undecorated_def then_do_def extcall_def Let_def
      steady_provider_def fresh_process_def)

lemma steady_call:
  "pipeline_call steady_provider h x w =
     (Inr [\<lparr>label = str ''positive'', score = 93 / 100\<rparr>], w)"
  by (simp add: steady_provider_def)

lemma steady_contract: "model_provider_contract steady_provider"
  by (simp add: model_provider_contract_def steady_provider_def analysis_result_def
      finbert_labels_def)

lemma exhausted_load:
  "load_sentiment_pipeline exhausted_provider fresh_process =
     (Inr (Handle 3), fresh_process\<lparr>cache := Some (Handle 3)\<rparr>,
      [From_pretrained_tokenizer (str ''ProsusAI/finbert'') None (Inr (Tokenizer 1)),
       From_pretrained_model (str ''ProsusAI/finbert'') None (Inr (Model 2)),
       Pipeline_ctor (str ''sentiment-analysis'') (Model 2) (Tokenizer 1) (Inr (Handle 3))])"
  by (simp add: load_sentiment_pipeline_def cache_resource_def
      load_sentiment_pipeline_undecorated_def then_do_def extcall_def Let_def
      exhausted_provider_def fresh_process_def)

lemma exhausted_call:
  "pipeline_call exhausted_provider h x w = (Inl (Exception (str ''out of memory'')), w)"
  by (simp add: exhausted_provider_def)

lemma fresh_cache: "cache fresh_process = None"
  by (simp add: fresh_process_def)

lemma steady_run:
  "main steady_provider headline True fresh_process =
     (Inr (), fresh_process\<lparr>cache := Some (Handle 3)\<rparr>,
      head_events @ spinner_event #
        ([From_pretrained_tokenizer (str ''ProsusAI/finbert'') None (Inr (Tokenizer 1)),
          From_pretrained_model (str ''ProsusAI/finbert'') None (Inr (Model 2)),
          Pipeline_ctor (str ''sentiment-analysis'') (Model 2) (Tokenizer 1) (Inr (Handle 3))] @
         [Pipeline_call (Handle 3) headline (Inr [\<lparr>label = str ''positive'', score = 93 / 100\<rparr>]),
          St_markdown (str ''### Analysis Result''), St_card (str ''positive'') (93 / 100),
          St_progress (93 / 100)]) @ sidebar_events)"
  using main_valid_done [OF headline_valid try_body_result [OF steady_load steady_call]]
  by (simp add: fresh_process_def)

subsection \<open>Runs of the script and lifetimes\<close>

lemma import_events_shows:
  "warnings (import_events v) = []" "cards (import_events v) = []" "bars (import_events v) = []"
  "errors (import_events v) = []" "loader_runs (import_events v) = 0"
  "built (import_events v) = []" "called (import_events v) = []"
  "getenvs (import_events v) = [(str ''HUGGINGFACE_TOKEN'', v)]"
  "provider_events (import_events v) = []"
  by (simp_all add: import_events_def provider_events_simps)

lemma after_import_fields:
  "cache (after_import i s) = cache s" "world (after_import i s) = world s"
  "hf_token (after_import i s) = resolved_token i s"
  "environ (after_import i s) = dotenv i ++ environ s"
  by (simp_all add: after_import_def)

lemma script_run:
  "script P i s =
     (case main P (typed_text i) (clicked i) (after_import i s) of
        (r, s1, evs) \<Rightarrow> (r, s1, import_events (resolved_token i s) @ evs))"
  by (simp add: script_def then_do_def load_dotenv_def os_getenv_def assign_hf_token_def
      emit_def after_import_def resolved_token_def import_events_def
      split: prod.splits sum.splits)

lemma script_cases [consumes 1, case_names run]:
  assumes "script P i s = (r, s1, evs)"
  obtains evs0 where
    "main P (typed_text i) (clicked i) (after_import i s) = (r, s1, evs0)"
    "evs = import_events (resolved_token i s) @ evs0"
  using assms unfolding script_run by (auto split: prod.splits)

lemma script_summary:
  assumes "script P i s = (r, s1, evs)"
  shows "environ s1 = dotenv i ++ environ s \<and> hf_token s1 = resolved_token i s \<and>
         getenvs evs = [(str ''HUGGINGFACE_TOKEN'', resolved_token i s)] \<and>
         ((cache s1 = cache s \<and> world s1 = world s \<and> provider_events evs = [] \<and>
           built evs = [] \<and> loader_runs evs = 0 \<and> called evs = [] \<and>
           (\<not> clicked i \<or> strip (typed_text i) = [])) \<or>
          (clicked i \<and> strip (typed_text i) \<noteq> [] \<and> provider_events evs \<noteq> [] \<and>
           ((\<exists>h. cache s = Some h \<and> cache s1 = Some h \<and> built evs = [] \<and>
                 loader_runs evs = 0 \<and> called evs = [h]) \<or>
            (cache s = None \<and> loader_runs evs = 1 \<and>
             ((\<exists>h. cache s1 = Some h \<and> built evs = [h] \<and> called evs = [h]) \<or>
              (cache s1 = None \<and> built evs = [] \<and> called evs = []))))))"
  using assms
proof (cases rule: script_cases)
  case (run evs0)
  from main_summary [OF run(1)] show ?thesis
    unfolding run(2) by (auto simp: page_shows import_events_shows after_import_fields)
qed

lemma session_handles:
  "session P inters s = (s1, evs) \<Longrightarrow>
     (\<forall>h. cache s = Some h \<longrightarrow>
        cache s1 = Some h \<and> built evs = [] \<and> loader_runs evs = 0 \<and> set (called evs) \<subseteq> {h}) \<and>
     (cache s = None \<longrightarrow>
        (cache s1 = None \<and> built evs = [] \<and> called evs = []) \<or>
        (\<exists>h. cache s1 = Some h \<and> built evs = [h] \<and> set (called evs) \<subseteq> {h}))"
proof (induction inters arbitrary: s s1 evs)
  case Nil
  then show ?case by auto
next
  case (Cons i rest)
  obtain r sa evsa where a: "script P i s = (r, sa, evsa)"
    by (metis prod_cases3)
  obtain sb evsb where b: "session P rest sa = (sb, evsb)"
    by (metis surj_pair)
  from Cons.prems a b have eq: "s1 = sb" "evs = evsa @ evsb"
    by simp_all
  note step = script_summary [OF a]
  note ih = Cons.IH [OF b]
  show ?case
  proof (cases "cache s")
    case (Some h)
    with step have "cache sa = Some h" "built evsa = []" "loader_runs evsa = 0"
      "set (called evsa) \<subseteq> {h}"
      by auto
    with ih Some show ?thesis
      unfolding eq by (auto simp: page_shows)
  next
    case None
    show ?thesis
    proof (cases "cache sa")
      case none: None
      with step None have "built evsa = []" "called evsa = []"
        by auto
      with ih none None show ?thesis
        unfolding eq by (auto simp: page_shows)
    next
      case (Some h)
      with step None have "built evsa = [h]" "called evsa = [h]"
        by auto
      with ih Some None show ?thesis
        unfolding eq by (auto simp: page_shows)
    qed
  qed
qed

lemmas run_defs =
  script_def main_def page_head_def sidebar_def try_body_def load_sentiment_pipeline_def
  cache_resource_def load_sentiment_pipeline_undecorated_def then_do_def extcall_def
  try_except_Exception_def emit_def ret_def index0_def st_progress_def load_dotenv_def
  os_getenv_def assign_hf_token_def Let_def

lemma steady_session:
  "built (snd (session steady_provider [submit_headline, submit_headline] fresh_process)) = [Handle 3]"
  "called (snd (session steady_provider [submit_headline, submit_headline] fresh_process)) = [Handle 3, Handle 3]"
  "loader_runs (snd (session steady_provider [submit_headline, submit_headline] fresh_process)) = 1"
  "cache (fst (session steady_provider [submit_headline, submit_headline] fresh_process)) = Some (Handle 3)"
  "getenvs (snd (session steady_provider [submit_headline, submit_headline] fresh_process)) =
     [(str ''HUGGINGFACE_TOKEN'', None), (str ''HUGGINGFACE_TOKEN'', None)]"
  by (simp_all add: run_defs steady_provider_def submit_headline_def fresh_process_def
      headline_valid)

lemma flaky_session:
  "loader_runs (snd (session flaky_provider [submit_headline, submit_headline] fresh_process)) = 2"
  "built (snd (session flaky_provider [submit_headline, submit_headline] fresh_process)) = [Handle 3]"
  "built (snd (snd (script flaky_provider submit_headline fresh_process))) = []"
  "cache (fst (snd (script flaky_provider submit_headline fresh_process))) = None"
  "errors (snd (snd (script flaky_provider submit_headline fresh_process))) =
     [error_text (str ''Connection error'')]"
  by (simp_all add: run_defs flaky_provider_def submit_headline_def fresh_process_def
      headline_valid error_text_def)

lemma load_fresh_trace:
  assumes "cache s = None" and "load_sentiment_pipeline P s = (r, s1, evs)"
  shows "(\<exists>e. r = Inl e \<and>
            evs = [From_pretrained_tokenizer (str ''ProsusAI/finbert'') (hf_token s) (Inl e)]) \<or>
         (\<exists>tok e. r = Inl e \<and>
            evs = [From_pretrained_tokenizer (str ''ProsusAI/finbert'') (hf_token s) (Inr tok),
                   From_pretrained_model (str ''ProsusAI/finbert'') (hf_token s) (Inl e)]) \<or>
         (\<exists>tok m.
            evs = [From_pretrained_tokenizer (str ''ProsusAI/finbert'') (hf_token s) (Inr tok),
                   From_pretrained_model (str ''ProsusAI/finbert'') (hf_token s) (Inr m),
                   Pipeline_ctor (str ''sentiment-analysis'') m tok r])"
  using assms
  by (auto simp: load_sentiment_pipeline_def cache_resource_def
      load_sentiment_pipeline_undecorated_def then_do_def extcall_def Let_def
      split: prod.splits sum.splits)

lemma load_fresh_head:
  assumes "cache s = None" and "load_sentiment_pipeline P s = (r, s1, evs)"
  shows "\<exists>rest.
           evs = From_pretrained_tokenizer (str ''ProsusAI/finbert'') (hf_token s)
                   (fst (AutoTokenizer_from_pretrained P (str ''ProsusAI/finbert'') (hf_token s)
                          (world s))) # rest \<and>
           (\<forall>tok. fst (AutoTokenizer_from_pretrained P (str ''ProsusAI/finbert'') (hf_token s)
                          (world s)) = Inr tok \<longrightarrow>
              (\<exists>rm rest'. rest = From_pretrained_model (str ''ProsusAI/finbert'') (hf_token s) rm # rest'))"
  using assms
  by (auto simp: load_sentiment_pipeline_def cache_resource_def
      load_sentiment_pipeline_undecorated_def then_do_def extcall_def Let_def
      split: prod.splits sum.splits)

lemma main_valid_trace:
  assumes "strip u \<noteq> []" and "main P u True s = (r, s1, evs)"
  shows "\<exists>rl s0 evs0 rest. load_sentiment_pipeline P s = (rl, s0, evs0) \<and>
           evs = head_events @ spinner_event # evs0 @ rest"
  using assms(2)
proof (cases rule: main_cases)
  case idle
  then show ?thesis by simp
next
  case blank
  with assms(1) show ?thesis by simp
next
  case (caught d evs0)
  from caught(3) show ?thesis unfolding caught(5)
    by (cases rule: try_body_cases) auto
next
  case (uncaught d evs0)
  from uncaught(3) show ?thesis unfolding uncaught(5)
    by (cases rule: try_body_cases) auto
next
  case (finished evs0)
  from finished(3) show ?thesis unfolding finished(5)
    by (cases rule: try_body_cases) auto
qed

lemma main_card_origin:
  assumes "main P u b s = (r, s1, evs)" and "cards evs = [(l, v)]"
  shows "b \<and> strip u \<noteq> [] \<and>
         (\<exists>h w x xs w'. cache s1 = Some h \<and> pipeline_call P h u w = (Inr (x # xs), w') \<and>
            label x = l \<and> score x = v)"
proof -
  have tb: "b \<and> strip u \<noteq> [] \<and>
         (\<exists>h w x xs w'. cache s1 = Some h \<and> pipeline_call P h u w = (Inr (x # xs), w') \<and>
            label x = l \<and> score x = v)"
    if t: "try_body P u s = (r0, s1, evs0)" and c: "cards evs0 = [(l, v)]"
      and bu: "b" "strip u \<noteq> []" for r0 evs0
    using t
  proof (cases rule: try_body_cases)
    case (load_fails e)
    with c load_shows [OF load_fails(1)] show ?thesis by simp
  next
    case (call_fails h s0 evs0' e w2)
    with c load_shows [OF call_fails(1)] show ?thesis by (simp add: page_shows)
  next
    case (no_entry h s0 evs0' w2)
    with c load_shows [OF no_entry(1)] show ?thesis by (simp add: page_shows)
  next
    case (shown h s0 evs0' x xs w2)
    from c load_shows [OF shown(1)] have "label x = l" "score x = v"
      unfolding shown(7) by (simp_all add: page_shows)
    moreover from load_returns_cache [OF shown(1)] have "cache s1 = Some h"
      unfolding shown(6) by simp
    ultimately show ?thesis using shown(2) bu by blast
  next
    case (bad_score h s0 evs0' x xs w2)
    from c load_shows [OF bad_score(1)] have "label x = l" "score x = v"
      unfolding bad_score(6) by (simp_all add: page_shows)
    moreover from load_returns_cache [OF bad_score(1)] have "cache s1 = Some h"
      unfolding bad_score(5) by simp
    ultimately show ?thesis using bad_score(2) bu by blast
  qed
  from assms(1) show ?thesis
  proof (cases rule: main_cases)
    case idle
    with assms(2) show ?thesis by (simp add: page_shows)
  next
    case blank
    with assms(2) show ?thesis by (simp add: page_shows)
  next
    case (caught d evs0)
    from assms(2) have "cards evs0 = [(l, v)]"
      unfolding caught(5) by (simp add: page_shows)
    from tb [OF caught(3) this caught(1,2)] show ?thesis .
  next
    case (uncaught d evs0)
    from assms(2) have "cards evs0 = [(l, v)]"
      unfolding uncaught(5) by (simp add: page_shows)
    from tb [OF uncaught(3) this uncaught(1,2)] show ?thesis .
  next
    case (finished evs0)
    from assms(2) have "cards evs0 = [(l, v)]"
      unfolding finished(5) by (simp add: page_shows)
    from tb [OF finished(3) this finished(1,2)] show ?thesis .
  qed
qed

lemma main_cached_card:
  assumes cached: "cache s = Some h" and valid: "strip u \<noteq> []"
    and answer: "fst (pipeline_call P h u (world s)) = Inr (x # xs)"
    and run: "main P u True s = (r, s1, evs)"
  shows "cards evs = [(label x, score x)]"
proof -
  obtain w2 where call: "pipeline_call P h u (world s) = (Inr (x # xs), w2)"
    using answer by (cases "pipeline_call P h u (world s)") simp
  note load = load_cached [OF cached, of P]
  show ?thesis
  proof (cases "0 \<le> score x \<and> score x \<le> 1")
    case True
    then have "try_body P u s =
        (Inr (), s\<lparr>world := w2\<rparr>,
         [] @ [Pipeline_call h u (Inr (x # xs)), St_markdown (str ''### Analysis Result''),
               St_card (label x) (score x), St_progress (score x)])"
      using try_body_result [OF load call] by simp
    from main_valid_done [OF valid this] run show ?thesis
      by (auto simp: page_shows)
  next
    case False
    then have "try_body P u s =
        (Inl (Exception (str ''Progress Value has invalid value [0.0, 1.0]'')), s\<lparr>world := w2\<rparr>,
         [] @ [Pipeline_call h u (Inr (x # xs)), St_markdown (str ''### Analysis Result''),
               St_card (label x) (score x)])"
      using try_body_bad_score [OF load call] by simp
    from main_valid_caught [OF valid this] run show ?thesis
      by (auto simp: page_shows)
  qed
qed

lemma try_body_provider_events:
  assumes tb: "try_body P u s = (r, s1, evs)"
  shows "(\<forall>h. cache s = Some h \<longrightarrow>
            cache s1 = Some h \<and> (\<exists>rc. provider_events evs = [Pipeline_call h u rc])) \<and>
         (cache s = None \<longrightarrow>
            (\<exists>rt rest. provider_events evs =
               From_pretrained_tokenizer (str ''ProsusAI/finbert'') (hf_token s) rt # rest) \<and>
            (\<forall>h. cache s1 = Some h \<longrightarrow>
               (\<exists>tok m rc. provider_events evs =
                  [From_pretrained_tokenizer (str ''ProsusAI/finbert'') (hf_token s) (Inr tok),
                   From_pretrained_model (str ''ProsusAI/finbert'') (hf_token s) (Inr m),
                   Pipeline_ctor (str ''sentiment-analysis'') m tok (Inr h),
                   Pipeline_call h u rc])))"
proof (cases "cache s")
  case (Some h)
  note load = load_cached [OF Some, of P]
  from tb show ?thesis
  proof (cases rule: try_body_cases)
    case (load_fails e)
    with load show ?thesis by simp
  next
    case (call_fails h' s0 evs0 e w2)
    with load Some show ?thesis by (auto simp: page_shows)
  next
    case (no_entry h' s0 evs0 w2)
    with load Some show ?thesis by (auto simp: page_shows)
  next
    case (shown h' s0 evs0 x xs w2)
    with load Some show ?thesis by (auto simp: page_shows)
  next
    case (bad_score h' s0 evs0 x xs w2)
    with load Some show ?thesis by (auto simp: page_shows)
  qed
next
  case None
  from tb show ?thesis
  proof (cases rule: try_body_cases)
    case (load_fails e)
    from load_fresh_trace [OF None load_fails(1)] load_raises_cache [OF load_fails(1)] None
    show ?thesis by (auto simp: page_shows)
  next
    case (call_fails h' s0 evs0 e w2)
    from load_fresh_trace [OF None call_fails(1)] load_returns_cache [OF call_fails(1)] None
    show ?thesis unfolding call_fails(4,5) by (auto simp: page_shows)
  next
    case (no_entry h' s0 evs0 w2)
    from load_fresh_trace [OF None no_entry(1)] load_returns_cache [OF no_entry(1)] None
    show ?thesis unfolding no_entry(4,5) by (auto simp: page_shows)
  next
    case (shown h' s0 evs0 x xs w2)
    from load_fresh_trace [OF None shown(1)] load_returns_cache [OF shown(1)] None
    show ?thesis unfolding shown(6,7) by (auto simp: page_shows)
  next
    case (bad_score h' s0 evs0 x xs w2)
    from load_fresh_trace [OF None bad_score(1)] load_returns_cache [OF bad_score(1)] None
    show ?thesis unfolding bad_score(5,6) by (auto simp: page_shows)
  qed
qed

lemma triple_collapse: "x = (fst x, fst (snd x), snd (snd x))"
  by simp

lemma submit_headline_fields:
  "clicked submit_headline" "typed_text submit_headline = headline"
  "strip (typed_text submit_headline) \<noteq> []"
  "dotenv submit_headline (str ''HUGGINGFACE_TOKEN'') = None"
  by (simp_all add: submit_headline_def headline_valid)

lemma fresh_environ: "environ fresh_process (str ''HUGGINGFACE_TOKEN'') = None"
  by (simp add: fresh_process_def)

lemma steady_deterministic: "deterministic_inference steady_provider"
  by (simp add: deterministic_inference_def steady_provider_def)

lemma steady_script:
  "snd (snd (script steady_provider submit_headline fresh_process)) =
     import_events None @ head_events @ spinner_event #
       [From_pretrained_tokenizer (str ''ProsusAI/finbert'') None (Inr (Tokenizer 1)),
        From_pretrained_model (str ''ProsusAI/finbert'') None (Inr (Model 2)),
        Pipeline_ctor (str ''sentiment-analysis'') (Model 2) (Tokenizer 1) (Inr (Handle 3)),
        Pipeline_call (Handle 3) headline (Inr [\<lparr>label = str ''positive'', score = 93 / 100\<rparr>]),
        St_markdown (str ''### Analysis Result''), St_card (str ''positive'') (93 / 100),
        St_progress (93 / 100)] @ sidebar_events"
  "cache (fst (snd (script steady_provider submit_headline fresh_process))) = Some (Handle 3)"
  by (simp_all add: run_defs steady_provider_def submit_headline_def fresh_process_def
      headline_valid import_events_def head_events_def sidebar_events_def spinner_event_def)

lemma steady_second_run:
  "provider_events (snd (snd (script steady_provider submit_headline
      (fst (snd (script steady_provider submit_headline fresh_process)))))) =
     [Pipeline_call (Handle 3) headline (Inr [\<lparr>label = str ''positive'', score = 93 / 100\<rparr>])]"
  "cache (fst (snd (script steady_provider submit_headline
      (fst (snd (script steady_provider submit_headline fresh_process)))))) = Some (Handle 3)"
  by (simp_all add: run_defs steady_provider_def submit_headline_def fresh_process_def
      headline_valid provider_events_simps)

lemma steady_later_run:
  "cards (snd (snd (script steady_provider submit_headline
      (fst (session steady_provider [submit_blanks]
         (fst (snd (script steady_provider submit_headline fresh_process)))))))) =
     [(str ''positive'', 93 / 100)]"
  by (simp add: run_defs steady_provider_def submit_headline_def submit_blanks_def
      fresh_process_def headline_valid blanks_strip)

lemma steady_blank_run:
  "getenvs (snd (snd (script steady_provider submit_blanks fresh_process))) =
     [(str ''HUGGINGFACE_TOKEN'', None)]"
  "loader_runs (snd (snd (script steady_provider submit_blanks fresh_process))) = 0"
  by (simp_all add: run_defs steady_provider_def submit_blanks_def fresh_process_def
      blanks_strip)

lemma steady_cached_session:
  "cache (fst (session steady_provider [submit_headline] fresh_process)) = Some (Handle 3)"
  "loader_runs (snd (session steady_provider [submit_headline]
      (fst (session steady_provider [submit_headline] fresh_process)))) = 0"
  by (simp_all add: run_defs steady_provider_def submit_headline_def fresh_process_def
      headline_valid)

lemma exhausted_run:
  "main exhausted_provider headline True fresh_process =
     (Inr (), fresh_process\<lparr>cache := Some (Handle 3)\<rparr>,
      head_events @ spinner_event #
        ([From_pretrained_tokenizer (str ''ProsusAI/finbert'') None (Inr (Tokenizer 1)),
          From_pretrained_model (str ''ProsusAI/finbert'') None (Inr (Model 2)),
          Pipeline_ctor (str ''sentiment-analysis'') (Model 2) (Tokenizer 1) (Inr (Handle 3))] @
         [Pipeline_call (Handle 3) headline (Inl (Exception (str ''out of memory'')))]) @
        St_error (error_text (str ''out of memory'')) # sidebar_events)"
  using main_valid_caught [OF headline_valid try_body_call_fails [OF exhausted_load exhausted_call]]
  by (simp add: fresh_process_def)



lemma try_body_loads:
  assumes tb: "try_body P u s = (r, s1, evs)" and fresh: "cache s = None"
  shows "(\<exists>tok m h rc. provider_events evs =
            [From_pretrained_tokenizer (str ''ProsusAI/finbert'') (hf_token s) (Inr tok),
             From_pretrained_model (str ''ProsusAI/finbert'') (hf_token s) (Inr m),
             Pipeline_ctor (str ''sentiment-analysis'') m tok (Inr h),
             Pipeline_call h u rc] \<and> cache s1 = Some h) \<or>
         (cache s1 = None \<and>
          ((\<exists>e. provider_events evs =
              [From_pretrained_tokenizer (str ''ProsusAI/finbert'') (hf_token s) (Inl e)]) \<or>
           (\<exists>tok e. provider_events evs =
              [From_pretrained_tokenizer (str ''ProsusAI/finbert'') (hf_token s) (Inr tok),
               From_pretrained_model (str ''ProsusAI/finbert'') (hf_token s) (Inl e)]) \<or>
           (\<exists>tok m e. provider_events evs =
              [From_pretrained_tokenizer (str ''ProsusAI/finbert'') (hf_token s) (Inr tok),
               From_pretrained_model (str ''ProsusAI/finbert'') (hf_token s) (Inr m),
               Pipeline_ctor (str ''sentiment-analysis'') m tok (Inl e)])))"
  using tb
proof (cases rule: try_body_cases)
  case (load_fails e)
  from load_fresh_trace [OF fresh load_fails(1)] load_raises_cache [OF load_fails(1)]
  show ?thesis by (auto simp: page_shows)
next
  case (call_fails h' s0 evs0 e w2)
  from load_fresh_trace [OF fresh call_fails(1)] load_returns_cache [OF call_fails(1)]
  show ?thesis unfolding call_fails(4,5) by (auto simp: page_shows)
next
  case (no_entry h' s0 evs0 w2)
  from load_fresh_trace [OF fresh no_entry(1)] load_returns_cache [OF no_entry(1)]
  show ?thesis unfolding no_entry(4,5) by (auto simp: page_shows)
next
  case (shown h' s0 evs0 x xs w2)
  from load_fresh_trace [OF fresh shown(1)] load_returns_cache [OF shown(1)]
  show ?thesis unfolding shown(6,7) by (auto simp: page_shows)
next
  case (bad_score h' s0 evs0 x xs w2)
  from load_fresh_trace [OF fresh bad_score(1)] load_returns_cache [OF bad_score(1)]
  show ?thesis unfolding bad_score(5,6) by (auto simp: page_shows)
qed



section \<open>The claims\<close>

text \<open>
  C1. For every input text that is not empty after trimming, the analysis gives a label
  among positive, negative and neutral and a score between 0 and 1. The label and the
  score are the provider's: the theorem takes the provider's contract as a hypothesis and
  shows that, when the loader supplies a handle and the inference returns, the page shows
  exactly one result card and one progress bar, with such a label and such a score, and
  no warning and no error.
\<close>

theorem analyze_gives_label_and_confidence:
  assumes valid: "strip user_input \<noteq> []"
    and contract: "model_provider_contract P"
    and load: "load_sentiment_pipeline P s = (Inr h, s1, evs1)"
    and call: "pipeline_call P h user_input (world s1) = (Inr rs, w2)"
  shows "\<exists>l v evs. main P user_input True s = (Inr (), s1\<lparr>world := w2\<rparr>, evs) \<and>
           cards evs = [(l, v)] \<and> bars evs = [v] \<and> errors evs = [] \<and> warnings evs = [] \<and>
           l \<in> finbert_labels \<and> 0 \<le> v \<and> v \<le> 1"
proof -
  from contract call obtain r rest where rs: "rs = r # rest" and ok: "analysis_result r"
    unfolding model_provider_contract_def by blast
  from ok have range: "0 \<le> score r" "score r \<le> 1" and lab: "label r \<in> finbert_labels"
    by (simp_all add: analysis_result_def)
  from call rs have call': "pipeline_call P h user_input (world s1) = (Inr (r # rest), w2)"
    by simp
  have "main P user_input True s =
      (Inr (), s1\<lparr>world := w2\<rparr>,
       head_events @ spinner_event #
         (evs1 @ [Pipeline_call h user_input (Inr (r # rest)),
            St_markdown (str ''### Analysis Result''), St_card (label r) (score r),
            St_progress (score r)]) @ sidebar_events)"
    using main_valid_done [OF valid try_body_result [OF load call' range]] by simp
  then show ?thesis
    using load_shows [OF load] range lab by (simp add: page_shows)
qed

theorem analyze_gives_label_and_confidence_witness:
  "strip headline \<noteq> [] \<and> model_provider_contract steady_provider \<and>
   (\<exists>l v evs. main steady_provider headline True fresh_process =
        (Inr (), fresh_process\<lparr>cache := Some (Handle 3)\<rparr>, evs) \<and>
      cards evs = [(l, v)] \<and> bars evs = [v] \<and> errors evs = [] \<and> warnings evs = [] \<and>
      l \<in> finbert_labels \<and> 0 \<le> v \<and> v \<le> 1)"
  using analyze_gives_label_and_confidence
    [OF headline_valid steady_contract steady_load steady_call]
    headline_valid steady_contract
  by (auto simp: fresh_process_def)

text \<open>
  C2. For an input that is empty or blank after trimming, a click renders the warning
  and nothing else: the state is unchanged (nothing is loaded, nothing is cached, the
  outside world is not touched), the trace has no call of the provider, no card, no
  progress bar and no error.
\<close>

theorem blank_input_is_warned:
  assumes "strip user_input = []"
  shows "\<exists>evs. main P user_input True s = (Inr (), s, evs) \<and>
           warnings evs = [str ''Please enter some text to analyze.''] \<and>
           cards evs = [] \<and> bars evs = [] \<and> errors evs = [] \<and> provider_events evs = []"
  using assms by (simp add: main_blank page_shows)

theorem blank_input_is_warned_witness:
  "strip (str ''  '') = [] \<and>
   (\<exists>evs. main steady_provider (str ''  '') True fresh_process = (Inr (), fresh_process, evs) \<and>
      warnings evs = [str ''Please enter some text to analyze.''] \<and>
      cards evs = [] \<and> bars evs = [] \<and> errors evs = [] \<and> provider_events evs = [])"
  using blank_input_is_warned [OF blanks_strip, of steady_provider fresh_process] blanks_strip
  by simp

text \<open>
  C3, as the spec states it: across the invocations of one process lifetime the loader
  builds the pipeline in its first call and never runs again. It fails when the first
  load raises: with a provider whose first download fails, two clicks run the loader's
  body twice, and the first call builds and caches nothing.
\<close>

theorem loader_runs_twice_counterexample:
  "\<not> loader_runs (snd (session flaky_provider [submit_headline, submit_headline] fresh_process))
      \<le> 1 \<and>
   built (snd (snd (script flaky_provider submit_headline fresh_process))) = [] \<and>
   cache (fst (snd (script flaky_provider submit_headline fresh_process))) = None \<and>
   built (snd (session flaky_provider [submit_headline, submit_headline] fresh_process)) =
     [Handle 3]"
  unfolding flaky_session by simp

text \<open>
  C3, amended: in every process lifetime at most one handle is built. A lifetime that
  starts without a handle builds none or exactly one, which is then the cached one; a
  lifetime that starts with a cached handle keeps it, builds none and never runs the
  loader's body; and every handle that is called for an inference is the cached one.
\<close>

theorem one_handle_per_lifetime:
  assumes "session P inters s = (s1, evs)"
  shows "(cache s = None \<longrightarrow>
            (built evs = [] \<and> cache s1 = None) \<or> (\<exists>h. built evs = [h] \<and> cache s1 = Some h)) \<and>
         (\<forall>h. cache s = Some h \<longrightarrow> cache s1 = Some h \<and> built evs = [] \<and> loader_runs evs = 0) \<and>
         (\<forall>h \<in> set (called evs). cache s1 = Some h)"
  using session_handles [OF assms] by (cases "cache s") auto

theorem one_handle_per_lifetime_witness:
  "cache fresh_process = None \<and>
   built (snd (session steady_provider [submit_headline, submit_headline] fresh_process)) =
     [Handle 3] \<and>
   cache (fst (session steady_provider [submit_headline, submit_headline] fresh_process)) =
     Some (Handle 3) \<and>
   called (snd (session steady_provider [submit_headline, submit_headline] fresh_process)) =
     [Handle 3, Handle 3] \<and>
   cache (fst (session steady_provider [submit_headline] fresh_process)) = Some (Handle 3) \<and>
   loader_runs (snd (session steady_provider [submit_headline]
      (fst (session steady_provider [submit_headline] fresh_process)))) = 0"
  using
    one_handle_per_lifetime [where P = steady_provider and s = fresh_process
      and inters = "[submit_headline, submit_headline]", OF prod.collapse [symmetric]]
    one_handle_per_lifetime [where P = steady_provider and inters = "[submit_headline]"
      and s = "fst (session steady_provider [submit_headline] fresh_process)",
      OF prod.collapse [symmetric]]
  unfolding steady_session steady_cached_session fresh_cache
  by simp

text \<open>
  C4. If the inference call raises an error, \<^verbatim>\<open>main\<close> returns normally, the page shows
  one error message that ends with the text of the error, no card and no progress bar,
  and the rest of the page (the sidebar) is still rendered.
\<close>

theorem inference_error_is_shown:
  assumes valid: "strip user_input \<noteq> []"
    and load: "load_sentiment_pipeline P s = (Inr h, s1, evs1)"
    and call: "pipeline_call P h user_input (world s1) = (Inl (Exception d), w2)"
  shows "\<exists>evs pre. main P user_input True s = (Inr (), s1\<lparr>world := w2\<rparr>, evs) \<and>
           errors evs = [str ''An error occurred during analysis: '' @ d] \<and>
           cards evs = [] \<and> bars evs = [] \<and> evs = pre @ sidebar_events"
proof -
  have "main P user_input True s =
      (Inr (), s1\<lparr>world := w2\<rparr>,
       (head_events @ spinner_event # evs1 @
          [Pipeline_call h user_input (Inl (Exception d)), St_error (error_text d)]) @
       sidebar_events)"
    using main_valid_caught [OF valid try_body_call_fails [OF load call]] by simp
  then show ?thesis
    using load_shows [OF load]
    by (simp only: ex_simps prod.inject simp_thms) (auto simp: page_shows error_text_def)
qed

theorem inference_error_is_shown_witness:
  "strip headline \<noteq> [] \<and>
   (\<exists>evs pre. main exhausted_provider headline True fresh_process =
        (Inr (), fresh_process\<lparr>cache := Some (Handle 3)\<rparr>, evs) \<and>
      errors evs = [str ''An error occurred during analysis: '' @ str ''out of memory''] \<and>
      cards evs = [] \<and> bars evs = [] \<and> evs = pre @ sidebar_events)"
  using inference_error_is_shown [OF headline_valid exhausted_load exhausted_call]
    headline_valid
  by (auto simp: fresh_process_def)

text \<open>
  C5. Two invocations with the same text give the same label and score, provided the
  inference is deterministic: if a run of the script shows a result for a text, then any
  later run of the same process lifetime with the same text, whatever runs lie between,
  shows the same label and the same score.
\<close>

theorem same_text_same_result:
  assumes det: "deterministic_inference P"
    and run1: "script P i s = (r1, s1, evs1)" and card: "cards evs1 = [(l, v)]"
    and between: "session P inters s1 = (s2, evs)"
    and same: "typed_text j = typed_text i" and click: "clicked j"
    and run2: "script P j s2 = (r2, s3, evs2)"
  shows "cards evs2 = [(l, v)]"
proof -
  from run1 obtain evs1' where
    m1: "main P (typed_text i) (clicked i) (after_import i s) = (r1, s1, evs1')" and
    e1: "evs1 = import_events (resolved_token i s) @ evs1'"
    by (cases rule: script_cases)
  from card have "cards evs1' = [(l, v)]"
    unfolding e1 by (simp add: page_shows import_events_shows)
  from main_card_origin [OF m1 this] obtain h w x xs w' where
    valid: "strip (typed_text i) \<noteq> []" and c1: "cache s1 = Some h" and
    call: "pipeline_call P h (typed_text i) w = (Inr (x # xs), w')" and
    lv: "label x = l" "score x = v"
    by blast
  from session_handles [OF between] c1 have c2: "cache s2 = Some h"
    by simp
  from run2 obtain evs2' where
    m2: "main P (typed_text j) (clicked j) (after_import j s2) = (r2, s3, evs2')" and
    e2: "evs2 = import_events (resolved_token j s2) @ evs2'"
    by (cases rule: script_cases)
  from det have "fst (pipeline_call P h (typed_text i) (world (after_import j s2))) =
      fst (pipeline_call P h (typed_text i) w)"
    unfolding deterministic_inference_def by blast
  with call have answer:
    "fst (pipeline_call P h (typed_text i) (world (after_import j s2))) = Inr (x # xs)"
    by simp
  from m2 click same have m2': "main P (typed_text i) True (after_import j s2) = (r2, s3, evs2')"
    by simp
  have "cache (after_import j s2) = Some h"
    using c2 by (simp add: after_import_fields)
  from main_cached_card [OF this valid answer m2'] lv show ?thesis
    unfolding e2 by (simp add: page_shows import_events_shows)
qed

theorem same_text_same_result_witness:
  "deterministic_inference steady_provider \<and>
   cards (snd (snd (script steady_provider submit_headline fresh_process))) =
     [(str ''positive'', 93 / 100)] \<and>
   cards (snd (snd (script steady_provider submit_headline
      (fst (session steady_provider [submit_blanks]
         (fst (snd (script steady_provider submit_headline fresh_process)))))))) =
     [(str ''positive'', 93 / 100)]"
proof -
  have card: "cards (snd (snd (script steady_provider submit_headline fresh_process))) =
      [(str ''positive'', 93 / 100)]"
    by (simp add: steady_script page_shows import_events_shows)
  from same_text_same_result [where P = steady_provider and i = submit_headline
      and s = fresh_process and inters = "[submit_blanks]" and j = submit_headline,
      OF steady_deterministic triple_collapse card prod.collapse [symmetric] refl
        submit_headline_fields(1) triple_collapse]
    steady_deterministic card
  show ?thesis by blast
qed

text \<open>
  C6. On a valid input the raw text, not the trimmed one, is handed to the pipeline, and
  the card shows the label and the score of the first entry of the returned list,
  whatever the score is and whatever entries follow.
\<close>

theorem top_ranked_entry_is_shown:
  assumes valid: "strip user_input \<noteq> []"
    and load: "load_sentiment_pipeline P s = (Inr h, s1, evs1)"
    and call: "pipeline_call P h user_input (world s1) = (Inr (r # rs), w2)"
  shows "\<exists>evs. main P user_input True s = (Inr (), s1\<lparr>world := w2\<rparr>, evs) \<and>
           provider_events evs =
             provider_events evs1 @ [Pipeline_call h user_input (Inr (r # rs))] \<and>
           cards evs = [(label r, score r)]"
proof (cases "0 \<le> score r \<and> score r \<le> 1")
  case True
  then have "main P user_input True s =
      (Inr (), s1\<lparr>world := w2\<rparr>,
       head_events @ spinner_event #
         (evs1 @ [Pipeline_call h user_input (Inr (r # rs)),
            St_markdown (str ''### Analysis Result''), St_card (label r) (score r),
            St_progress (score r)]) @ sidebar_events)"
    using main_valid_done [OF valid try_body_result [OF load call]] by simp
  then show ?thesis
    using load_shows [OF load] by (simp add: page_shows)
next
  case False
  then have "main P user_input True s =
      (Inr (), s1\<lparr>world := w2\<rparr>,
       head_events @ spinner_event #
         (evs1 @ [Pipeline_call h user_input (Inr (r # rs)),
            St_markdown (str ''### Analysis Result''), St_card (label r) (score r)]) @
         St_error (error_text (str ''Progress Value has invalid value [0.0, 1.0]'')) #
         sidebar_events)"
    using main_valid_caught [OF valid try_body_bad_score [OF load call]] by simp
  then show ?thesis
    using load_shows [OF load] by (simp add: page_shows)
qed

theorem top_ranked_entry_is_shown_witness:
  "strip headline \<noteq> [] \<and>
   (\<exists>evs. main steady_provider headline True fresh_process =
        (Inr (), fresh_process\<lparr>cache := Some (Handle 3)\<rparr>, evs) \<and>
      cards evs = [(str ''positive'', 93 / 100)])"
  using top_ranked_entry_is_shown [OF headline_valid steady_load steady_call] headline_valid
  by (auto simp: fresh_process_def)

text \<open>
  C7, as the spec states it: the credential is resolved in the first call of the loader
  and not again later. It fails: line 9 resolves it at the top of the script, so two
  valid clicks resolve it twice while the loader's body runs once, and a click on a blank
  input resolves it although the loader is never called.
\<close>

theorem credential_resolved_every_run_counterexample:
  "getenvs (snd (session steady_provider [submit_headline, submit_headline] fresh_process)) =
     [(str ''HUGGINGFACE_TOKEN'', None), (str ''HUGGINGFACE_TOKEN'', None)] \<and>
   loader_runs (snd (session steady_provider [submit_headline, submit_headline] fresh_process)) =
     1 \<and>
   getenvs (snd (snd (script steady_provider submit_blanks fresh_process))) =
     [(str ''HUGGINGFACE_TOKEN'', None)] \<and>
   loader_runs (snd (snd (script steady_provider submit_blanks fresh_process))) = 0"
  unfolding steady_session steady_blank_run by simp

text \<open>
  C7, amended: every run of the script, with or without a click, resolves the credential
  once, at its top, and leaves it in \<^verbatim>\<open>hf_token\<close>; a run without a valid click calls the
  provider not at all and leaves the cache as it was. On a valid click without a cached
  handle the provider is asked for the tokenizer and the model under the fixed name with
  that credential and for the pipeline built from the two; when all three succeed the
  handle is cached and called for the inference, and when one of them raises nothing is
  cached and nothing further is called. On a valid click with a cached handle the handle
  stays cached and the inference is the only call of the provider.
\<close>

theorem token_resolved_per_run_handle_built_once:
  assumes run: "script P i s = (r, s1, evs)"
  shows "getenvs evs = [(str ''HUGGINGFACE_TOKEN'', resolved_token i s)] \<and>
         hf_token s1 = resolved_token i s \<and>
         (\<not> (clicked i \<and> strip (typed_text i) \<noteq> []) \<longrightarrow>
            provider_events evs = [] \<and> cache s1 = cache s) \<and>
         (clicked i \<and> strip (typed_text i) \<noteq> [] \<and> cache s = None \<longrightarrow>
            (\<exists>tok m h rc. provider_events evs =
               [From_pretrained_tokenizer (str ''ProsusAI/finbert'') (resolved_token i s) (Inr tok),
                From_pretrained_model (str ''ProsusAI/finbert'') (resolved_token i s) (Inr m),
                Pipeline_ctor (str ''sentiment-analysis'') m tok (Inr h),
                Pipeline_call h (typed_text i) rc] \<and> cache s1 = Some h) \<or>
            (cache s1 = None \<and>
             ((\<exists>e. provider_events evs =
                 [From_pretrained_tokenizer (str ''ProsusAI/finbert'') (resolved_token i s) (Inl e)]) \<or>
              (\<exists>tok e. provider_events evs =
                 [From_pretrained_tokenizer (str ''ProsusAI/finbert'') (resolved_token i s) (Inr tok),
                  From_pretrained_model (str ''ProsusAI/finbert'') (resolved_token i s) (Inl e)]) \<or>
              (\<exists>tok m e. provider_events evs =
                 [From_pretrained_tokenizer (str ''ProsusAI/finbert'') (resolved_token i s) (Inr tok),
                  From_pretrained_model (str ''ProsusAI/finbert'') (resolved_token i s) (Inr m),
                  Pipeline_ctor (str ''sentiment-analysis'') m tok (Inl e)])))) \<and>
         (\<forall>h. clicked i \<and> strip (typed_text i) \<noteq> [] \<and> cache s = Some h \<longrightarrow>
            cache s1 = Some h \<and> (\<exists>rc. provider_events evs = [Pipeline_call h (typed_text i) rc]))"
proof -
  from run obtain evs0 where
    m: "main P (typed_text i) (clicked i) (after_import i s) = (r, s1, evs0)" and
    e: "evs = import_events (resolved_token i s) @ evs0"
    by (cases rule: script_cases)
  from script_summary [OF run] have
    g: "getenvs evs = [(str ''HUGGINGFACE_TOKEN'', resolved_token i s)]" and
    t: "hf_token s1 = resolved_token i s" and
    idle: "\<not> (clicked i \<and> strip (typed_text i) \<noteq> []) \<longrightarrow>
             provider_events evs = [] \<and> cache s1 = cache s"
    by auto
  have valid: "(cache s = None \<longrightarrow>
            (\<exists>tok m h rc. provider_events evs =
               [From_pretrained_tokenizer (str ''ProsusAI/finbert'') (resolved_token i s) (Inr tok),
                From_pretrained_model (str ''ProsusAI/finbert'') (resolved_token i s) (Inr m),
                Pipeline_ctor (str ''sentiment-analysis'') m tok (Inr h),
                Pipeline_call h (typed_text i) rc] \<and> cache s1 = Some h) \<or>
            (cache s1 = None \<and>
             ((\<exists>e. provider_events evs =
                 [From_pretrained_tokenizer (str ''ProsusAI/finbert'') (resolved_token i s) (Inl e)]) \<or>
              (\<exists>tok e. provider_events evs =
                 [From_pretrained_tokenizer (str ''ProsusAI/finbert'') (resolved_token i s) (Inr tok),
                  From_pretrained_model (str ''ProsusAI/finbert'') (resolved_token i s) (Inl e)]) \<or>
              (\<exists>tok m e. provider_events evs =
                 [From_pretrained_tokenizer (str ''ProsusAI/finbert'') (resolved_token i s) (Inr tok),
                  From_pretrained_model (str ''ProsusAI/finbert'') (resolved_token i s) (Inr m),
                  Pipeline_ctor (str ''sentiment-analysis'') m tok (Inl e)])))) \<and>
         (\<forall>h. cache s = Some h \<longrightarrow>
            cache s1 = Some h \<and> (\<exists>rc. provider_events evs = [Pipeline_call h (typed_text i) rc]))"
    if click: "clicked i" and nonblank: "strip (typed_text i) \<noteq> []"
  proof -
    from m obtain evt rt where
      tb: "try_body P (typed_text i) (after_import i s) = (rt, s1, evt)" and
      p: "provider_events evs0 = provider_events evt"
    proof (cases rule: main_cases)
      case idle
      with click show ?thesis by simp
    next
      case blank
      with nonblank show ?thesis by simp
    next
      case (caught d evs0')
      with that show ?thesis by (simp add: page_shows)
    next
      case (uncaught d evs0')
      with that show ?thesis by (simp add: page_shows)
    next
      case (finished evs0')
      with that show ?thesis by (simp add: page_shows)
    qed
    have pe: "provider_events evs = provider_events evt"
      unfolding e by (simp add: page_shows import_events_shows p)
    show ?thesis
    proof (cases "cache s")
      case None
      then have "cache (after_import i s) = None"
        by (simp add: after_import_fields)
      from try_body_loads [OF tb this] None show ?thesis
        unfolding pe by (simp add: after_import_fields)
    next
      case (Some h)
      from try_body_provider_events [OF tb] Some show ?thesis
        unfolding pe by (simp add: after_import_fields)
    qed
  qed
  from g t idle valid show ?thesis by blast
qed

theorem token_resolved_per_run_handle_built_once_witness:
  "clicked submit_headline \<and> strip (typed_text submit_headline) \<noteq> [] \<and>
   cache fresh_process = None \<and>
   getenvs (snd (snd (script steady_provider submit_headline fresh_process))) =
     [(str ''HUGGINGFACE_TOKEN'', None)] \<and>
   provider_events (snd (snd (script steady_provider submit_headline fresh_process))) =
     [From_pretrained_tokenizer (str ''ProsusAI/finbert'') None (Inr (Tokenizer 1)),
      From_pretrained_model (str ''ProsusAI/finbert'') None (Inr (Model 2)),
      Pipeline_ctor (str ''sentiment-analysis'') (Model 2) (Tokenizer 1) (Inr (Handle 3)),
      Pipeline_call (Handle 3) headline (Inr [\<lparr>label = str ''positive'', score = 93 / 100\<rparr>])] \<and>
   cache (fst (snd (script steady_provider submit_headline fresh_process))) = Some (Handle 3) \<and>
   provider_events (snd (snd (script steady_provider submit_headline
      (fst (snd (script steady_provider submit_headline fresh_process)))))) =
     [Pipeline_call (Handle 3) headline (Inr [\<lparr>label = str ''positive'', score = 93 / 100\<rparr>])] \<and>
   cache (fst (snd (script steady_provider submit_headline
      (fst (snd (script steady_provider submit_headline fresh_process)))))) = Some (Handle 3)"
  using
    token_resolved_per_run_handle_built_once [where P = steady_provider and s = fresh_process
      and i = submit_headline, OF triple_collapse]
    token_resolved_per_run_handle_built_once [where P = steady_provider and i = submit_headline
      and s = "fst (snd (script steady_provider submit_headline fresh_process))",
      OF triple_collapse]
  unfolding steady_script steady_second_run
  by (simp add: submit_headline_fields headline_valid fresh_cache page_shows
      import_events_shows)

text \<open>
  C8. A call of \<^verbatim>\<open>main\<close> leaves the environment and the token as they were. The
  cache entry stays as it was or goes from empty to the one handle built in this call,
  and a call whose trace has no call of the provider changes nothing at all.
\<close>

theorem main_changes_only_the_cache:
  assumes "main P user_input analyze_button s = (r, s1, evs)"
  shows "environ s1 = environ s \<and> hf_token s1 = hf_token s \<and>
         (cache s1 = cache s \<or> (cache s = None \<and> (\<exists>h. cache s1 = Some h \<and> built evs = [h]))) \<and>
         (provider_events evs = [] \<longrightarrow> s1 = s)"
  using main_summary [OF assms] by auto

theorem main_changes_only_the_cache_witness:
  "\<exists>r s1 evs. main steady_provider headline True fresh_process = (r, s1, evs) \<and>
     environ s1 = environ fresh_process \<and> hf_token s1 = hf_token fresh_process \<and>
     cache fresh_process = None \<and> cache s1 = Some (Handle 3) \<and> built evs = [Handle 3]"
  using main_changes_only_the_cache [OF steady_run]
  by (simp add: steady_run fresh_cache page_shows)




text \<open>
  C10. When \<^verbatim>\<open>HUGGINGFACE_TOKEN\<close> is set neither in the environment nor in the
  \<^verbatim>\<open>.env\<close> file, the token resolves to \<^verbatim>\<open>None\<close>, and on a valid click without a
  cached handle nothing but page elements precedes the call for the tokenizer, which is
  made with the token \<^verbatim>\<open>None\<close>; if it succeeds, the call for the model follows with the
  token \<^verbatim>\<open>None\<close> as well.
\<close>

theorem missing_token_is_passed_as_None:
  assumes absent: "environ s (str ''HUGGINGFACE_TOKEN'') = None"
      "dotenv i (str ''HUGGINGFACE_TOKEN'') = None"
    and click: "clicked i" and valid: "strip (typed_text i) \<noteq> []"
    and fresh: "cache s = None"
    and run: "script P i s = (r, s1, evs)"
  shows "\<exists>rt rest.
           evs = import_events None @ head_events @ spinner_event #
                   From_pretrained_tokenizer (str ''ProsusAI/finbert'') None rt # rest \<and>
           rt = fst (AutoTokenizer_from_pretrained P (str ''ProsusAI/finbert'') None (world s)) \<and>
           (\<forall>tok. rt = Inr tok \<longrightarrow>
              (\<exists>rm rest'. rest = From_pretrained_model (str ''ProsusAI/finbert'') None rm # rest'))"
proof -
  from absent have tok: "resolved_token i s = None"
    by (simp add: resolved_token_def map_add_def)
  from run obtain evs0 where
    m: "main P (typed_text i) (clicked i) (after_import i s) = (r, s1, evs0)" and
    e: "evs = import_events (resolved_token i s) @ evs0"
    by (cases rule: script_cases)
  from m click have m': "main P (typed_text i) True (after_import i s) = (r, s1, evs0)"
    by simp
  from main_valid_trace [OF valid m'] obtain rl s0 evl rest where
    l: "load_sentiment_pipeline P (after_import i s) = (rl, s0, evl)" and
    e0: "evs0 = head_events @ spinner_event # evl @ rest"
    by blast
  have "cache (after_import i s) = None"
    using fresh by (simp add: after_import_fields)
  from load_fresh_head [OF this l] show ?thesis
    unfolding e e0 by (auto simp: after_import_fields tok)
qed

theorem missing_token_is_passed_as_None_witness:
  "environ fresh_process (str ''HUGGINGFACE_TOKEN'') = None \<and>
   dotenv submit_headline (str ''HUGGINGFACE_TOKEN'') = None \<and>
   clicked submit_headline \<and> strip (typed_text submit_headline) \<noteq> [] \<and>
   cache fresh_process = None \<and>
   (\<exists>rest. snd (snd (script steady_provider submit_headline fresh_process)) =
      import_events None @ head_events @ spinner_event #
        From_pretrained_tokenizer (str ''ProsusAI/finbert'') None (Inr (Tokenizer 1)) #
        From_pretrained_model (str ''ProsusAI/finbert'') None (Inr (Model 2)) # rest)"
  using missing_token_is_passed_as_None [where P = steady_provider,
      OF fresh_environ submit_headline_fields(4,1,3) fresh_cache triple_collapse]
  unfolding steady_script
  by (simp add: submit_headline_fields headline_valid fresh_cache fresh_environ)

end
